theory Spec2Isabelle
  imports Main
begin

section \<open>Values of the JavaScript source\<close>

text \<open>
  The repository holds two bots: \<^verbatim>\<open>src/discordjs/index.js\<close>, which registers the
  example commands \<^verbatim>\<open>ping\<close> and \<^verbatim>\<open>info\<close>, and a second file
  (\<^verbatim>\<open>src/unnamed/part_000\<close>) which registers no command of its own. Their class
  \<^verbatim>\<open>TopGGIntegration\<close> is the same, line for line; their class
  \<^verbatim>\<open>CommandSyncer\<close> differs and is embedded twice below.

  A JavaScript property that may be \<^verbatim>\<open>undefined\<close> or \<^verbatim>\<open>null\<close> is an
  \<open>option\<close>. The source tests such properties for truthiness, so the tests are
  written out: a string is truthy when it is defined and not empty, an array is
  always truthy, and the source asks for its length on top.
\<close>

text \<open>\<^verbatim>\<open>v || d\<close> on a string \<open>v\<close> that may be missing.\<close>

definition or_else :: "string option \<Rightarrow> string \<Rightarrow> string" where
  "or_else v d = (case v of None \<Rightarrow> d | Some s \<Rightarrow> if s = [] then d else s)"

text \<open>\<^verbatim>\<open>v || false\<close> on a boolean \<open>v\<close> that may be missing.\<close>

definition or_false :: "bool option \<Rightarrow> bool" where
  "or_false v = (case v of None \<Rightarrow> False | Some b \<Rightarrow> b)"

text \<open>\<^verbatim>\<open>xs && xs.length > 0\<close> on an array \<open>xs\<close> that may be missing.\<close>

definition non_empty :: "'a list option \<Rightarrow> bool" where
  "non_empty v = (case v of None \<Rightarrow> False | Some xs \<Rightarrow> 0 < length xs)"

text \<open>
  \<^verbatim>\<open>String.prototype.includes\<close>: the pattern occurs in the string as a run of
  consecutive characters.
\<close>

fun starts_with :: "string \<Rightarrow> string \<Rightarrow> bool" where
  "starts_with s [] = True"
| "starts_with [] (p # ps) = False"
| "starts_with (c # cs) (p # ps) = (c = p \<and> starts_with cs ps)"

fun includes_str :: "string \<Rightarrow> string \<Rightarrow> bool" where
  "includes_str [] pat = (pat = [])"
| "includes_str (c # cs) pat = (starts_with (c # cs) pat \<or> includes_str cs pat)"

text \<open>A thrown \<^verbatim>\<open>Error\<close>; the source reads nothing of it but \<^verbatim>\<open>message\<close>.\<close>

datatype error = Error (message: string)

section \<open>The log\<close>

text \<open>
  Every \<^verbatim>\<open>logger\<close> call of the two classes is one constructor, carrying the
  values the message interpolates. The level is the method called
  (\<^verbatim>\<open>logger.info\<close>, \<^verbatim>\<open>logger.warn\<close>, \<^verbatim>\<open>logger.error\<close>).
\<close>

datatype level = Info | Warn | Err

datatype event =
    Commands_token_not_found
  | No_commands_found
  | Posted nat
  | Post_failed nat string
  | Post_error string
  | Fetch_bot_commands_error string
  | Found_existing nat
  | Could_not_fetch_existing string
  | Updating_existing string
  | Adding_new string
  | Synced_guild nat string
  | Synced_globally nat
  | Failed_to_sync string
  | Error_syncing string
  | Attempting_individual
  | Created string
  | Already_exists string
  | Failed_to_create string string
  | Started_periodic
  | Stopped_periodic
  | Periodic_update_error string

type_synonym log = "(level \<times> event) list"

section \<open>Format converter\<close>

text \<open>
  \<^verbatim>\<open>ApplicationCommandType\<close> is discord.js's enumeration; the source compares
  with its members \<^verbatim>\<open>User\<close> and \<^verbatim>\<open>Message\<close> and writes the chat-input
  discriminator as the literal 1.
\<close>

definition ApplicationCommandType_ChatInput :: nat where
  "ApplicationCommandType_ChatInput = 1"

definition ApplicationCommandType_User :: nat where
  "ApplicationCommandType_User = 2"

definition ApplicationCommandType_Message :: nat where
  "ApplicationCommandType_Message = 3"

datatype choice_value = String_value string | Integer_value int

type_synonym choice = "string \<times> choice_value"

text \<open>An option of a fetched command, as \<^verbatim>\<open>convertOptionToTopGGFormat\<close> reads it.\<close>

datatype option_descriptor =
  Option_descriptor
    (opt_name: string)
    (opt_description: "string option")
    (opt_type: nat)
    (opt_required: "bool option")
    (opt_choices: "choice list option")
    (opt_options: "option_descriptor list option")

text \<open>The object \<^verbatim>\<open>optionData\<close>; a field the source does not set is \<open>None\<close>.\<close>

datatype topgg_option =
  Topgg_option
    (to_name: string)
    (to_description: string)
    (to_type: nat)
    (to_required: bool)
    (to_choices: "choice list option")
    (to_options: "topgg_option list option")

fun convertOptionToTopGGFormat :: "option_descriptor \<Rightarrow> topgg_option" where
  "convertOptionToTopGGFormat (Option_descriptor n d t r cs os) =
     Topgg_option n (or_else d ''Parameter'') t (or_false r)
       (if non_empty cs then cs else None)
       (case os of
          None \<Rightarrow> None
        | Some subs \<Rightarrow>
            if 0 < length subs then Some (map convertOptionToTopGGFormat subs) else None)"

text \<open>
  A command as \<^verbatim>\<open>client.application.commands.fetch()\<close> yields it, with the
  properties \<^verbatim>\<open>convertCommandToTopGGFormat\<close> reads. \<open>cmd_defaultMemberPermissions\<close>
  is \<open>Some s\<close> for a permissions object whose \<^verbatim>\<open>toString()\<close> is \<open>s\<close> (an
  object is truthy whatever it holds) and \<open>None\<close> for \<^verbatim>\<open>null\<close>.
\<close>

record application_command =
  cmd_id :: string
  cmd_name :: string
  cmd_description :: "string option"
  cmd_type :: nat
  cmd_options :: "option_descriptor list option"
  cmd_defaultMemberPermissions :: "string option"

text \<open>The object \<^verbatim>\<open>commandData\<close>; a field the source does not set is \<open>None\<close>.\<close>

record topgg_command =
  tc_id :: string
  tc_application_id :: string
  tc_name :: string
  tc_version :: string
  tc_type :: nat
  tc_description :: string
  tc_options :: "topgg_option list option"
  tc_default_member_permissions :: "string option"

text \<open>
  \<^verbatim>\<open>client.application.id\<close>. Both classes are built and called in the
  \<^verbatim>\<open>clientReady\<close> handler, where \<^verbatim>\<open>client.application\<close> is set.
\<close>

record client =
  application_id :: string

text \<open>
  \<^verbatim>\<open>convertCommandToTopGGFormat\<close> returns \<^verbatim>\<open>null\<close> from its
  \<^verbatim>\<open>catch\<close>; \<open>None\<close> stands for it. Nothing in its \<^verbatim>\<open>try\<close> block throws
  on a command of the type above, so every result here is \<open>Some\<close>.
\<close>

definition convertCommandToTopGGFormat ::
  "client \<Rightarrow> application_command \<Rightarrow> topgg_command option" where
  "convertCommandToTopGGFormat c command =
     (let context_menu =
            (cmd_type command = ApplicationCommandType_User
             \<or> cmd_type command = ApplicationCommandType_Message)
      in Some \<lparr>
           tc_id = cmd_id command,
           tc_application_id = application_id c,
           tc_name = cmd_name command,
           tc_version = ''1'',
           tc_type = (if context_menu then cmd_type command else 1),
           tc_description =
             (if context_menu then ''''
              else or_else (cmd_description command) ''No description''),
           tc_options =
             (if context_menu then None
              else if non_empty (cmd_options command)
                   then map_option (map convertOptionToTopGGFormat) (cmd_options command)
                   else None),
           tc_default_member_permissions =
             (case cmd_defaultMemberPermissions command of
                None \<Rightarrow> None
              | Some s \<Rightarrow> Some s) \<rparr>)"

section \<open>Network calls and their trace\<close>

text \<open>
  A command as the REST API carries it: what \<^verbatim>\<open>rest.get\<close> returns and what
  \<^verbatim>\<open>SlashCommandBuilder.toJSON()\<close> builds. The source reads \<^verbatim>\<open>name\<close> only;
  \<open>api_id\<close> and \<open>api_version\<close> are set by the platform and missing from a body
  built locally.
\<close>

record api_command =
  api_name :: string
  api_description :: string
  api_id :: "string option"
  api_version :: "string option"

text \<open>\<^verbatim>\<open>Routes.applicationCommands\<close> and \<^verbatim>\<open>Routes.applicationGuildCommands\<close>.\<close>

datatype route =
    Application_commands string
  | Application_guild_commands string string

record response =
  status :: nat
  data :: string

datatype request =
    Commands_fetch
  | Axios_post string "topgg_command list" "(string \<times> string) list"
  | Rest_get route
  | Rest_put route "api_command list"
  | Rest_post route api_command

text \<open>
  What the network answers. \<open>Inl e\<close> is a rejected promise: the \<^verbatim>\<open>await\<close>
  throws \<open>e\<close>. Within one call of a method below no request is sent twice, so an
  answer is a function of the request.
\<close>

record net =
  commands_fetch :: "error + application_command list"
  axios_post :: "string \<Rightarrow> topgg_command list \<Rightarrow> (string \<times> string) list \<Rightarrow> error + response"
  rest_get :: "route \<Rightarrow> error + api_command list"
  rest_put :: "route \<Rightarrow> api_command list \<Rightarrow> error + api_command list"
  rest_post :: "route \<Rightarrow> api_command \<Rightarrow> error + api_command"

text \<open>What a run leaves behind: the log lines and the requests sent, oldest first.\<close>

record world =
  logged :: log
  requests :: "request list"

definition say :: "level \<Rightarrow> event \<Rightarrow> world \<Rightarrow> world" where
  "say l e w = w\<lparr>logged := logged w @ [(l, e)]\<rparr>"

definition send :: "request \<Rightarrow> world \<Rightarrow> world" where
  "send r w = w\<lparr>requests := requests w @ [r]\<rparr>"

section \<open>Directory publisher\<close>

text \<open>The loop of \<^verbatim>\<open>getBotCommandsForTopGG\<close>: a \<^verbatim>\<open>null\<close> result is skipped.\<close>

fun convert_each ::
  "client \<Rightarrow> application_command list \<Rightarrow> topgg_command list \<Rightarrow> topgg_command list" where
  "convert_each c [] commandsList = commandsList"
| "convert_each c (command # commands) commandsList =
     (case convertCommandToTopGGFormat c command of
        None \<Rightarrow> convert_each c commands commandsList
      | Some commandData \<Rightarrow> convert_each c commands (commandsList @ [commandData]))"

definition getBotCommandsForTopGG ::
  "client \<Rightarrow> net \<Rightarrow> world \<Rightarrow> topgg_command list \<times> world" where
  "getBotCommandsForTopGG c n w =
     (case commands_fetch n of
        Inl e \<Rightarrow> ([], say Err (Fetch_bot_commands_error (message e)) (send Commands_fetch w))
      | Inr commands \<Rightarrow> (convert_each c commands [], send Commands_fetch w))"

definition topgg_url :: string where
  "topgg_url = ''https://top.gg/api/v1/projects/@me/commands''"

definition topgg_headers :: "string \<Rightarrow> (string \<times> string) list" where
  "topgg_headers token =
     [(''Authorization'', ''Bearer '' @ token), (''Content-Type'', ''application/json'')]"

text \<open>
  The \<^verbatim>\<open>try\<close> block of \<^verbatim>\<open>postCommandsToTopGG\<close>: \<open>Inl e\<close> is the error it
  throws to the \<^verbatim>\<open>catch\<close> below.
\<close>

definition post_try :: "client \<Rightarrow> string \<Rightarrow> net \<Rightarrow> world \<Rightarrow> (error + bool) \<times> world" where
  "post_try c token n w =
     (let (commandsData, w1) = getBotCommandsForTopGG c n w in
      if length commandsData = 0 then (Inr False, say Warn No_commands_found w1)
      else
        let headers = topgg_headers token;
            w2 = send (Axios_post topgg_url commandsData headers) w1
        in case axios_post n topgg_url commandsData headers of
             Inl e \<Rightarrow> (Inl e, w2)
           | Inr response \<Rightarrow>
               if status response = 200 \<or> status response = 204
               then (Inr True, say Info (Posted (length commandsData)) w2)
               else (Inr False, say Err (Post_failed (status response) (data response)) w2))"

text \<open>
  \<^verbatim>\<open>postCommandsToTopGG\<close>. \<open>commandsToken\<close> is \<^verbatim>\<open>process.env.COMMANDS_TK\<close>,
  \<open>None\<close> when the variable is not set. The result is what the returned promise
  settles to: \<open>Inr b\<close> when it resolves to \<open>b\<close>, \<open>Inl e\<close> when it rejects.
\<close>

definition postCommandsToTopGG ::
  "client \<Rightarrow> string option \<Rightarrow> net \<Rightarrow> world \<Rightarrow> (error + bool) \<times> world" where
  "postCommandsToTopGG c commandsToken n w =
     (case commandsToken of
        None \<Rightarrow> (Inr False, say Err Commands_token_not_found w)
      | Some token \<Rightarrow>
          if token = [] then (Inr False, say Err Commands_token_not_found w)
          else
            (case post_try c token n w of
               (Inl e, w1) \<Rightarrow> (Inr False, say Err (Post_error (message e)) w1)
             | (Inr b, w1) \<Rightarrow> (Inr b, w1)))"

section \<open>Periodic updates\<close>

text \<open>
  The timers of the process, as far as \<^verbatim>\<open>TopGGIntegration\<close> sets them:
  \<open>intervals\<close> are the handles \<^verbatim>\<open>setInterval\<close> has returned and
  \<^verbatim>\<open>clearInterval\<close> has not cancelled, \<open>next_timer\<close> is the next fresh handle,
  \<open>periodicCommandsInterval\<close> is the property of that name (\<open>None\<close> while it is
  \<^verbatim>\<open>undefined\<close>; a handle is an object, so truthy), and \<open>publish_calls\<close>
  counts the calls of \<^verbatim>\<open>postCommandsToTopGG\<close> the interval callbacks make.
\<close>

record runtime =
  periodicCommandsInterval :: "nat option"
  intervals :: "nat set"
  next_timer :: nat
  publish_calls :: nat
  rt_world :: world

definition startPeriodicUpdates :: "runtime \<Rightarrow> runtime" where
  "startPeriodicUpdates r =
     (let t = next_timer r in
      r\<lparr> intervals := insert t (intervals r),
         next_timer := Suc t,
         periodicCommandsInterval := Some t,
         rt_world := say Info Started_periodic (rt_world r) \<rparr>)"

definition stopPeriodicUpdates :: "runtime \<Rightarrow> runtime" where
  "stopPeriodicUpdates r =
     (case periodicCommandsInterval r of
        None \<Rightarrow> r
      | Some t \<Rightarrow>
          r\<lparr> intervals := intervals r - {t},
             rt_world := say Info Stopped_periodic (rt_world r) \<rparr>)"

text \<open>
  The event loop lets the 24-hour interval \<open>t\<close> elapse: its callback runs if the timer
  is still set, and does nothing otherwise. The callback awaits
  \<^verbatim>\<open>postCommandsToTopGG\<close> and logs what it throws.
\<close>

definition interval_elapses ::
  "client \<Rightarrow> string option \<Rightarrow> net \<Rightarrow> nat \<Rightarrow> runtime \<Rightarrow> runtime" where
  "interval_elapses c commandsToken n t r =
     (if t \<in> intervals r then
        (case postCommandsToTopGG c commandsToken n (rt_world r) of
           (Inl e, w) \<Rightarrow>
             r\<lparr> publish_calls := Suc (publish_calls r),
                rt_world := say Err (Periodic_update_error (message e)) w \<rparr>
         | (Inr b, w) \<Rightarrow>
             r\<lparr> publish_calls := Suc (publish_calls r), rt_world := w \<rparr>)
      else r)"

text \<open>
  An execution is a sequence of steps: a call of either method, or an interval
  elapsing while the network answers as \<open>n\<close>.
\<close>

datatype step = Start | Stop | Elapses nat net

fun run :: "client \<Rightarrow> string option \<Rightarrow> step list \<Rightarrow> runtime \<Rightarrow> runtime" where
  "run c commandsToken [] r = r"
| "run c commandsToken (Start # steps) r = run c commandsToken steps (startPeriodicUpdates r)"
| "run c commandsToken (Stop # steps) r = run c commandsToken steps (stopPeriodicUpdates r)"
| "run c commandsToken (Elapses t n # steps) r =
     run c commandsToken steps (interval_elapses c commandsToken n t r)"

text \<open>A process that has set no interval yet.\<close>

definition fresh :: runtime where
  "fresh = \<lparr> periodicCommandsInterval = None, intervals = {}, next_timer = 0,
             publish_calls = 0, rt_world = \<lparr> logged = [], requests = [] \<rparr> \<rparr>"

section \<open>Command synchronizer\<close>

text \<open>
  \<^verbatim>\<open>if (guildId)\<close>: the parameter defaults to \<^verbatim>\<open>null\<close>, and an empty string
  is falsy too.
\<close>

definition route_of :: "client \<Rightarrow> string option \<Rightarrow> route" where
  "route_of c guildId =
     (case guildId of
        None \<Rightarrow> Application_commands (application_id c)
      | Some g \<Rightarrow>
          if g = [] then Application_commands (application_id c)
          else Application_guild_commands (application_id c) g)"

text \<open>
  \<^verbatim>\<open>new SlashCommandBuilder().setName(n).setDescription(d).toJSON()\<close>, the body of a
  command the bot itself defines.
\<close>

definition slash_command :: "string \<Rightarrow> string \<Rightarrow> api_command" where
  "slash_command n d =
     \<lparr> api_name = n, api_description = d, api_id = None, api_version = None \<rparr>"

definition newCommands :: "api_command list" where
  "newCommands =
     [slash_command ''ping'' ''Check bot latency'',
      slash_command ''info'' ''Get bot information'']"

text \<open>\<^verbatim>\<open>Array.prototype.findIndex\<close>; \<open>None\<close> stands for its \<open>-1\<close>.\<close>

fun findIndex :: "('a \<Rightarrow> bool) \<Rightarrow> 'a list \<Rightarrow> nat option" where
  "findIndex p [] = None"
| "findIndex p (x # xs) =
     (if p x then Some 0 else map_option Suc (findIndex p xs))"

text \<open>
  The merge loop of \<^verbatim>\<open>syncCommands\<close> in \<^verbatim>\<open>src/discordjs/index.js\<close>:
  first its body, for one \<open>newCmd\<close>, then the loop over \<open>newCommands\<close>.
\<close>

definition merge_one ::
  "api_command \<Rightarrow> api_command list \<Rightarrow> world \<Rightarrow> api_command list \<times> world" where
  "merge_one newCmd allCommands w =
     (case findIndex (\<lambda>cmd. api_name cmd = api_name newCmd) allCommands of
        Some existingIndex \<Rightarrow>
          (allCommands[existingIndex := newCmd],
           say Info (Updating_existing (api_name newCmd)) w)
      | None \<Rightarrow>
          (allCommands @ [newCmd], say Info (Adding_new (api_name newCmd)) w))"

fun merge_each ::
  "api_command list \<Rightarrow> api_command list \<Rightarrow> world \<Rightarrow> api_command list \<times> world" where
  "merge_each [] allCommands w = (allCommands, w)"
| "merge_each (newCmd # rest) allCommands w =
     (case merge_one newCmd allCommands w of
        (allCommands', w') \<Rightarrow> merge_each rest allCommands' w')"

text \<open>
  The loop of \<^verbatim>\<open>createCommandsIndividually\<close>, with \<open>createdCount\<close> as
  accumulator. Each \<^verbatim>\<open>rest.post\<close> has a \<^verbatim>\<open>try\<close> of its own.
\<close>

fun create_each ::
  "net \<Rightarrow> route \<Rightarrow> api_command list \<Rightarrow> nat \<Rightarrow> world \<Rightarrow> nat \<times> world" where
  "create_each n rt [] createdCount w = (createdCount, w)"
| "create_each n rt (command # commands) createdCount w =
     (case rest_post n rt command of
        Inr created \<Rightarrow>
          create_each n rt commands (Suc createdCount)
            (say Info (Created (api_name command)) (send (Rest_post rt command) w))
      | Inl cmdError \<Rightarrow>
          if includes_str (message cmdError) ''already exists''
          then create_each n rt commands createdCount
                 (say Info (Already_exists (api_name command)) (send (Rest_post rt command) w))
          else create_each n rt commands createdCount
                 (say Err (Failed_to_create (api_name command) (message cmdError))
                   (send (Rest_post rt command) w)))"

definition createCommandsIndividually ::
  "client \<Rightarrow> net \<Rightarrow> string option \<Rightarrow> world \<Rightarrow> nat \<times> world" where
  "createCommandsIndividually c n guildId w =
     create_each n (route_of c guildId) newCommands 0 w"

text \<open>
  The three stages of the outer \<^verbatim>\<open>try\<close> block of \<^verbatim>\<open>syncCommands\<close> in
  \<^verbatim>\<open>src/discordjs/index.js\<close>. First the fetch, in a \<^verbatim>\<open>try\<close> of its own,
  which leaves \<open>existingCommands\<close> empty when \<^verbatim>\<open>rest.get\<close> throws.
\<close>

definition fetch_existing ::
  "client \<Rightarrow> net \<Rightarrow> string option \<Rightarrow> world \<Rightarrow> api_command list \<times> world" where
  "fetch_existing c n guildId w =
     (let rt = route_of c guildId in
      case rest_get n rt of
        Inr existingCommands \<Rightarrow>
          (existingCommands,
           say Info (Found_existing (length existingCommands)) (send (Rest_get rt) w))
      | Inl fetchError \<Rightarrow>
          ([], say Warn (Could_not_fetch_existing (message fetchError))
                 (send (Rest_get rt) w)))"

text \<open>Then the merge: \<open>allCommands\<close> starts as a copy of \<open>existingCommands\<close>.\<close>

definition merge_commands ::
  "client \<Rightarrow> net \<Rightarrow> string option \<Rightarrow> world \<Rightarrow> api_command list \<times> world" where
  "merge_commands c n guildId w =
     (let (existingCommands, w1) = fetch_existing c n guildId w
      in merge_each newCommands existingCommands w1)"

text \<open>Last the bulk overwrite; \<open>Inl e\<close> is the error thrown to the outer \<^verbatim>\<open>catch\<close>.\<close>

definition sync_try ::
  "client \<Rightarrow> net \<Rightarrow> string option \<Rightarrow> world \<Rightarrow> (error + nat) \<times> world" where
  "sync_try c n guildId w =
     (let rt = route_of c guildId;
          (allCommands, w2) = merge_commands c n guildId w;
          w3 = send (Rest_put rt allCommands) w2
      in case rest_put n rt allCommands of
           Inl e \<Rightarrow> (Inl e, w3)
         | Inr synced \<Rightarrow>
             (Inr (length synced),
              say Info
                (case rt of
                   Application_guild_commands a g \<Rightarrow> Synced_guild (length synced) g
                 | Application_commands a \<Rightarrow> Synced_globally (length synced))
                w3))"

definition syncCommands :: "client \<Rightarrow> net \<Rightarrow> string option \<Rightarrow> world \<Rightarrow> nat \<times> world" where
  "syncCommands c n guildId w =
     (case sync_try c n guildId w of
        (Inr count, w1) \<Rightarrow> (count, w1)
      | (Inl e, w1) \<Rightarrow>
          (let w2 = say Err (Failed_to_sync (message e)) w1 in
           if includes_str (message e) ''Entry Point''
           then createCommandsIndividually c n guildId (say Info Attempting_individual w2)
           else (0, w2)))"

text \<open>
  \<^verbatim>\<open>syncCommands\<close> of the repository's other bot (\<^verbatim>\<open>src/unnamed/part_000\<close>):
  it defines no command, writes the fetched list back, and its one
  \<^verbatim>\<open>catch\<close> answers a failed fetch and a failed write alike.
\<close>

definition syncCommands_part_000 ::
  "client \<Rightarrow> net \<Rightarrow> string option \<Rightarrow> world \<Rightarrow> nat \<times> world" where
  "syncCommands_part_000 c n guildId w =
     (let rt = route_of c guildId in
      case rest_get n rt of
        Inl error \<Rightarrow> (0, say Err (Error_syncing (message error)) (send (Rest_get rt) w))
      | Inr existingCommands \<Rightarrow>
          (let w1 = say Info (Found_existing (length existingCommands)) (send (Rest_get rt) w);
               w2 = send (Rest_put rt existingCommands) w1
           in case rest_put n rt existingCommands of
                Inl error \<Rightarrow> (0, say Err (Error_syncing (message error)) w2)
              | Inr synced \<Rightarrow>
                  (length synced,
                   say Info
                     (case rt of
                        Application_guild_commands a g \<Rightarrow> Synced_guild (length synced) g
                      | Application_commands a \<Rightarrow> Synced_globally (length synced))
                     w2)))"

section \<open>Notions the statements use\<close>

text \<open>
  The option reached from \<open>opt\<close> by the indices \<open>path\<close>, each an index into the
  \<^verbatim>\<open>options\<close> array of the option before; \<open>None\<close> when the path leaves the
  tree. The same for a converted option.
\<close>

fun option_at :: "option_descriptor \<Rightarrow> nat list \<Rightarrow> option_descriptor option" where
  "option_at opt [] = Some opt"
| "option_at opt (i # path) =
     (case opt_options opt of
        None \<Rightarrow> None
      | Some subs \<Rightarrow> if i < length subs then option_at (subs ! i) path else None)"

fun topgg_option_at :: "topgg_option \<Rightarrow> nat list \<Rightarrow> topgg_option option" where
  "topgg_option_at out [] = Some out"
| "topgg_option_at out (i # path) =
     (case to_options out of
        None \<Rightarrow> None
      | Some subs \<Rightarrow> if i < length subs then topgg_option_at (subs ! i) path else None)"

text \<open>The POST requests to the directory among the requests sent so far.\<close>

fun is_directory_post :: "request \<Rightarrow> bool" where
  "is_directory_post (Axios_post url body headers) = True"
| "is_directory_post other = False"

definition directory_posts :: "world \<Rightarrow> request list" where
  "directory_posts w = filter is_directory_post (requests w)"

text \<open>
  What \<open>merge_one\<close> does to the positions the list already has: the first command
  named as \<open>d\<close> gives way to \<open>d\<close>, the others stay.
\<close>

definition put_back :: "api_command \<Rightarrow> api_command list \<Rightarrow> api_command list" where
  "put_back d ys =
     (case findIndex (\<lambda>cmd. api_name cmd = api_name d) ys of
        Some i \<Rightarrow> ys[i := d]
      | None \<Rightarrow> ys)"

section \<open>Example inputs\<close>

definition example_client :: client where
  "example_client = \<lparr> application_id = ''1234'' \<rparr>"

definition empty_world :: world where
  "empty_world = \<lparr> logged = [], requests = [] \<rparr>"

text \<open>A command registered by other means, and a \<^verbatim>\<open>ping\<close> registered earlier.\<close>

definition launch_command :: api_command where
  "launch_command =
     \<lparr> api_name = ''launch'', api_description = ''Launch the activity'',
       api_id = Some ''900'', api_version = Some ''1'' \<rparr>"

definition old_ping :: api_command where
  "old_ping =
     \<lparr> api_name = ''ping'', api_description = ''Old latency check'',
       api_id = Some ''901'', api_version = Some ''1'' \<rparr>"

definition leaf_option :: option_descriptor where
  "leaf_option = Option_descriptor ''target'' None 3 (Some True) (Some []) None"

definition group_option :: option_descriptor where
  "group_option =
     Option_descriptor ''set'' (Some ''Change a setting'') 1 None None (Some [leaf_option])"

definition chat_command :: application_command where
  "chat_command =
     \<lparr> cmd_id = ''901'', cmd_name = ''ping'', cmd_description = Some ''Check bot latency'',
       cmd_type = 1, cmd_options = Some [], cmd_defaultMemberPermissions = None \<rparr>"

definition user_command :: application_command where
  "user_command =
     \<lparr> cmd_id = ''902'', cmd_name = ''Report user'', cmd_description = Some '''',
       cmd_type = 2, cmd_options = Some [], cmd_defaultMemberPermissions = None \<rparr>"

text \<open>A network where every call succeeds.\<close>

definition example_net :: net where
  "example_net =
     \<lparr> commands_fetch = Inr [chat_command, user_command],
       axios_post = (\<lambda>url body headers. Inr \<lparr> status = 204, data = '''' \<rparr>),
       rest_get = (\<lambda>rt. Inr [launch_command, old_ping]),
       rest_put = (\<lambda>rt body. Inr body),
       rest_post = (\<lambda>rt command. Inr command) \<rparr>"

text \<open>The directory answers 201; the directory cannot be reached; the bot has no command.\<close>

definition net_created :: net where
  "net_created =
     example_net \<lparr> axios_post := \<lambda>url body headers. Inr \<lparr> status = 201, data = '''' \<rparr> \<rparr>"

definition net_down :: net where
  "net_down =
     example_net \<lparr> axios_post := \<lambda>url body headers. Inl (Error ''socket hang up'') \<rparr>"

definition net_no_commands :: net where
  "net_no_commands = example_net \<lparr> commands_fetch := Inr [] \<rparr>"

text \<open>The scope holds one command, registered by other means.\<close>

definition net_launch_only :: net where
  "net_launch_only = example_net \<lparr> rest_get := \<lambda>rt. Inr [launch_command] \<rparr>"

text \<open>The fetch of the existing commands fails.\<close>

definition net_fetch_fails :: net where
  "net_fetch_fails = example_net \<lparr> rest_get := \<lambda>rt. Inl (Error ''Missing Access'') \<rparr>"

text \<open>
  The bulk overwrite is refused because of an Entry Point command, and \<^verbatim>\<open>ping\<close>
  exists already.
\<close>

definition net_entry_point :: net where
  "net_entry_point =
     example_net
       \<lparr> rest_put := \<lambda>rt body. Inl (Error ''Entry Point command cannot be removed''),
         rest_post := \<lambda>rt command.
           if api_name command = ''ping'' then Inl (Error ''Command already exists'')
           else Inr command \<rparr>"

section \<open>The format converter, verified\<close>

lemma convert_option_at:
  "topgg_option_at (convertOptionToTopGGFormat opt) path =
     map_option convertOptionToTopGGFormat (option_at opt path)"
proof (induction path arbitrary: opt)
  case Nil
  show ?case by simp
next
  case (Cons i path)
  show ?case
  proof (cases opt)
    case (Option_descriptor n d t r cs os)
    show ?thesis
    proof (cases os)
      case None
      with Option_descriptor show ?thesis by simp
    next
      case (Some subs)
      with Option_descriptor Cons.IH show ?thesis by (cases "i < length subs") auto
    qed
  qed
qed

lemma convert_option_fields:
  "to_name (convertOptionToTopGGFormat opt) = opt_name opt
   \<and> to_type (convertOptionToTopGGFormat opt) = opt_type opt
   \<and> to_required (convertOptionToTopGGFormat opt) =
       (case opt_required opt of None \<Rightarrow> False | Some b \<Rightarrow> b)
   \<and> to_description (convertOptionToTopGGFormat opt) =
       (case opt_description opt of
          None \<Rightarrow> ''Parameter''
        | Some d \<Rightarrow> if d = '''' then ''Parameter'' else d)
   \<and> to_choices (convertOptionToTopGGFormat opt) =
       (case opt_choices opt of
          None \<Rightarrow> None
        | Some cs \<Rightarrow> if cs = [] then None else Some cs)
   \<and> to_options (convertOptionToTopGGFormat opt) =
       (case opt_options opt of
          None \<Rightarrow> None
        | Some subs \<Rightarrow>
            if subs = [] then None else Some (map convertOptionToTopGGFormat subs))"
  by (cases opt) (auto simp: or_else_def or_false_def non_empty_def split: option.splits)

text \<open>
  Claim C6. A command of a context-menu type (\<^verbatim>\<open>User\<close> or \<^verbatim>\<open>Message\<close>) is
  converted to a payload, not to \<^verbatim>\<open>null\<close>; the payload's type is the command's
  type and its description is the empty string.
\<close>

theorem convert_context_menu:
  assumes "cmd_type command = ApplicationCommandType_User
           \<or> cmd_type command = ApplicationCommandType_Message"
  shows "\<exists>payload. convertCommandToTopGGFormat c command = Some payload
           \<and> tc_type payload = cmd_type command
           \<and> tc_description payload = ''''"
  using assms by (auto simp: convertCommandToTopGGFormat_def)

theorem convert_context_menu_witness:
  "cmd_type user_command = ApplicationCommandType_User
   \<and> (\<exists>payload. convertCommandToTopGGFormat example_client user_command = Some payload
         \<and> tc_type payload = 2
         \<and> tc_description payload = '''')"
proof -
  have h: "cmd_type user_command = ApplicationCommandType_User
           \<or> cmd_type user_command = ApplicationCommandType_Message"
    by (simp add: user_command_def ApplicationCommandType_User_def)
  show ?thesis
    using convert_context_menu [OF h, of example_client]
    by (simp add: user_command_def ApplicationCommandType_User_def)
qed

text \<open>
  Claim C7. A command of chat-input type is converted to a payload whose type is 1.
  Its description is the command's own when the command has one, and
  \<^verbatim>\<open>No description\<close> when it has none. The source decides with \<^verbatim>\<open>||\<close>: a
  description that is \<^verbatim>\<open>undefined\<close>, \<^verbatim>\<open>null\<close> or the empty string counts
  as none.
\<close>

theorem convert_chat_input:
  assumes "cmd_type command = ApplicationCommandType_ChatInput"
  shows "\<exists>payload. convertCommandToTopGGFormat c command = Some payload
           \<and> tc_type payload = 1
           \<and> tc_description payload =
               (case cmd_description command of
                  None \<Rightarrow> ''No description''
                | Some d \<Rightarrow> if d = '''' then ''No description'' else d)"
  using assms
  by (auto simp: convertCommandToTopGGFormat_def ApplicationCommandType_ChatInput_def
      ApplicationCommandType_User_def ApplicationCommandType_Message_def or_else_def
      split: option.splits)

theorem convert_chat_input_witness:
  "cmd_type chat_command = ApplicationCommandType_ChatInput
   \<and> (\<exists>payload. convertCommandToTopGGFormat example_client chat_command = Some payload
         \<and> tc_type payload = 1
         \<and> tc_description payload = ''Check bot latency'')
   \<and> (\<exists>payload.
         convertCommandToTopGGFormat example_client (chat_command\<lparr>cmd_description := None\<rparr>)
           = Some payload
         \<and> tc_type payload = 1
         \<and> tc_description payload = ''No description'')"
proof -
  have h: "cmd_type chat_command = ApplicationCommandType_ChatInput"
    by (simp add: chat_command_def ApplicationCommandType_ChatInput_def)
  have h': "cmd_type (chat_command\<lparr>cmd_description := None\<rparr>) = ApplicationCommandType_ChatInput"
    by (simp add: chat_command_def ApplicationCommandType_ChatInput_def)
  show ?thesis
    using h convert_chat_input [OF h, of example_client]
      convert_chat_input [OF h', of example_client]
    by (simp add: chat_command_def)
qed

text \<open>
  Claim C8. Take an option and any option \<open>sub\<close> below it, at whatever depth. The
  converted tree has an option \<open>out\<close> at the same place, and \<open>out\<close> is made from
  \<open>sub\<close> so: name and type are copied; \<^verbatim>\<open>required\<close> is copied, and is false
  when \<open>sub\<close> has none; the description is \<^verbatim>\<open>Parameter\<close> when \<open>sub\<close> has none
  (none, or the empty string); the choices are there, unchanged, exactly when \<open>sub\<close>
  has a non-empty array of them; the sub-options are there, each converted in the
  same way, exactly when \<open>sub\<close> has a non-empty array of them.
\<close>

theorem convert_option_any_depth:
  assumes "option_at opt path = Some sub"
  shows "\<exists>out. topgg_option_at (convertOptionToTopGGFormat opt) path = Some out
     \<and> to_name out = opt_name sub
     \<and> to_type out = opt_type sub
     \<and> to_required out = (case opt_required sub of None \<Rightarrow> False | Some b \<Rightarrow> b)
     \<and> to_description out =
         (case opt_description sub of
            None \<Rightarrow> ''Parameter''
          | Some d \<Rightarrow> if d = '''' then ''Parameter'' else d)
     \<and> to_choices out =
         (case opt_choices sub of
            None \<Rightarrow> None
          | Some cs \<Rightarrow> if cs = [] then None else Some cs)
     \<and> to_options out =
         (case opt_options sub of
            None \<Rightarrow> None
          | Some subs \<Rightarrow>
              if subs = [] then None else Some (map convertOptionToTopGGFormat subs))"
proof -
  have "topgg_option_at (convertOptionToTopGGFormat opt) path
          = Some (convertOptionToTopGGFormat sub)"
    using assms by (simp add: convert_option_at)
  then show ?thesis
    using convert_option_fields [of sub] by simp
qed

theorem convert_option_any_depth_witness:
  "option_at group_option [0] = Some leaf_option
   \<and> (\<exists>out. topgg_option_at (convertOptionToTopGGFormat group_option) [0] = Some out
         \<and> to_name out = ''target''
         \<and> to_type out = 3
         \<and> to_required out
         \<and> to_description out = ''Parameter''
         \<and> to_choices out = None
         \<and> to_options out = None)"
proof -
  have h: "option_at group_option [0] = Some leaf_option"
    by (simp add: group_option_def)
  show ?thesis
    using h convert_option_any_depth [OF h] by (simp add: leaf_option_def)
qed

section \<open>The directory publisher, verified\<close>

lemma requests_say [simp]: "requests (say l e w) = requests w"
  by (simp add: say_def)

lemma requests_send [simp]: "requests (send r w) = requests w @ [r]"
  by (simp add: send_def)

lemma logged_say [simp]: "logged (say l e w) = logged w @ [(l, e)]"
  by (simp add: say_def)

lemma logged_send [simp]: "logged (send r w) = logged w"
  by (simp add: send_def)

lemma convert_each_length:
  "length (convert_each c commands commandsList) = length commandsList + length commands"
  by (induction commands arbitrary: commandsList)
    (simp_all add: convertCommandToTopGGFormat_def Let_def)

lemma getBot_empty_iff:
  "fst (getBotCommandsForTopGG c n w) = [] \<longleftrightarrow>
     (case commands_fetch n of Inl e \<Rightarrow> True | Inr commands \<Rightarrow> commands = [])"
proof (cases "commands_fetch n")
  case (Inl e)
  then show ?thesis by (simp add: getBotCommandsForTopGG_def)
next
  case (Inr commands)
  have "convert_each c commands [] = [] \<longleftrightarrow> commands = []"
    using convert_each_length [of c commands "[]"] by (metis add_0 length_0_conv)
  with Inr show ?thesis by (simp add: getBotCommandsForTopGG_def)
qed

lemma directory_posts_getBot:
  "directory_posts (snd (getBotCommandsForTopGG c n w)) = directory_posts w"
  by (simp add: getBotCommandsForTopGG_def directory_posts_def split: sum.splits)

text \<open>
  Claim C3. The promise \<^verbatim>\<open>postCommandsToTopGG\<close> returns never rejects: whatever
  the token, the network and the commands, it resolves to a boolean. When the POST
  is sent (the token is not empty and the batch is not empty), that boolean is true
  exactly when the POST resolves with a response whose status is 200 or 204; it is
  false for a response with any other status and for a POST that throws.
\<close>

theorem postCommandsToTopGG_result:
  "(\<exists>b. fst (postCommandsToTopGG c commandsToken n w) = Inr b)
   \<and> (\<forall>token. commandsToken = Some token \<and> token \<noteq> []
         \<and> fst (getBotCommandsForTopGG c n w) \<noteq> [] \<longrightarrow>
        fst (postCommandsToTopGG c commandsToken n w) =
          (case axios_post n topgg_url (fst (getBotCommandsForTopGG c n w))
                  (topgg_headers token) of
             Inr response \<Rightarrow> Inr (status response = 200 \<or> status response = 204)
           | Inl e \<Rightarrow> Inr False))"
  by (auto simp: postCommandsToTopGG_def post_try_def Let_def
      split: option.splits sum.splits prod.splits)

theorem postCommandsToTopGG_result_witness:
  "fst (getBotCommandsForTopGG example_client example_net empty_world) \<noteq> []
   \<and> fst (postCommandsToTopGG example_client (Some ''token'') example_net empty_world)
       = Inr True
   \<and> fst (postCommandsToTopGG example_client (Some ''token'') net_created empty_world)
       = Inr False
   \<and> fst (postCommandsToTopGG example_client (Some ''token'') net_down empty_world)
       = Inr False"
proof -
  have batch: "fst (getBotCommandsForTopGG example_client example_net empty_world) \<noteq> []"
    "fst (getBotCommandsForTopGG example_client net_created empty_world) \<noteq> []"
    "fst (getBotCommandsForTopGG example_client net_down empty_world) \<noteq> []"
    by (simp_all add: getBot_empty_iff example_net_def net_created_def net_down_def)
  show ?thesis
    using batch
      postCommandsToTopGG_result [of example_client "Some ''token''" example_net empty_world]
      postCommandsToTopGG_result [of example_client "Some ''token''" net_created empty_world]
      postCommandsToTopGG_result [of example_client "Some ''token''" net_down empty_world]
    by (simp add: example_net_def net_created_def net_down_def)
qed

text \<open>
  Claim C4. When the token is missing or empty, or the batch of converted commands
  is empty, \<^verbatim>\<open>postCommandsToTopGG\<close> resolves to false and sends no POST to the
  directory: the POSTs sent are the ones sent before the call.
\<close>

theorem postCommandsToTopGG_no_post:
  assumes "commandsToken = None \<or> commandsToken = Some ''''
           \<or> fst (getBotCommandsForTopGG c n w) = []"
  shows "fst (postCommandsToTopGG c commandsToken n w) = Inr False
         \<and> directory_posts (snd (postCommandsToTopGG c commandsToken n w)) = directory_posts w"
proof (cases "commandsToken = None \<or> commandsToken = Some ''''")
  case True
  then show ?thesis by (auto simp: postCommandsToTopGG_def directory_posts_def)
next
  case False
  then obtain token where tok: "commandsToken = Some token" "token \<noteq> []" by auto
  from False assms have empty: "fst (getBotCommandsForTopGG c n w) = []" by auto
  obtain w1 where g: "getBotCommandsForTopGG c n w = ([], w1)"
    using empty by (cases "getBotCommandsForTopGG c n w") simp
  have "directory_posts w1 = directory_posts w"
    using directory_posts_getBot [of c n w] g by simp
  then show ?thesis
    using tok g by (simp add: postCommandsToTopGG_def post_try_def directory_posts_def)
qed

theorem postCommandsToTopGG_no_post_witness:
  "fst (postCommandsToTopGG example_client (Some '''') example_net empty_world) = Inr False
   \<and> directory_posts (snd (postCommandsToTopGG example_client (Some '''') example_net empty_world))
       = []
   \<and> fst (getBotCommandsForTopGG example_client net_no_commands empty_world) = []
   \<and> fst (postCommandsToTopGG example_client (Some ''token'') net_no_commands empty_world)
       = Inr False
   \<and> directory_posts
         (snd (postCommandsToTopGG example_client (Some ''token'') net_no_commands empty_world))
       = []
   \<and> directory_posts
         (snd (postCommandsToTopGG example_client (Some ''token'') example_net empty_world))
       \<noteq> []"
proof -
  have empty: "fst (getBotCommandsForTopGG example_client net_no_commands empty_world) = []"
    by (simp add: getBot_empty_iff net_no_commands_def)
  have "fst (getBotCommandsForTopGG example_client example_net empty_world) \<noteq> []"
    by (simp add: getBot_empty_iff example_net_def)
  then have sent: "directory_posts (snd (postCommandsToTopGG example_client (Some ''token'')
            example_net empty_world)) \<noteq> []"
    by (auto simp: postCommandsToTopGG_def post_try_def directory_posts_def example_net_def
        split: prod.splits)
  have before: "directory_posts empty_world = []"
    by (simp add: directory_posts_def empty_world_def)
  show ?thesis
    using empty sent before
      postCommandsToTopGG_no_post [of "Some ''''" example_client example_net empty_world]
      postCommandsToTopGG_no_post [of "Some ''token''" example_client net_no_commands empty_world]
    by simp
qed

section \<open>The periodic updates, verified\<close>

lemma run_append: "run c tok (xs @ ys) r = run c tok ys (run c tok xs r)"
proof (induction xs arbitrary: r)
  case Nil
  show ?case by simp
next
  case (Cons x xs)
  then show ?case by (cases x) simp_all
qed

lemma elapses_timers:
  "intervals (interval_elapses c tok n t r) = intervals r
   \<and> periodicCommandsInterval (interval_elapses c tok n t r) = periodicCommandsInterval r
   \<and> next_timer (interval_elapses c tok n t r) = next_timer r"
  by (simp add: interval_elapses_def split: prod.splits sum.splits)

lemma elapses_not_set:
  "t \<notin> intervals r \<Longrightarrow> interval_elapses c tok n t r = r"
  by (simp add: interval_elapses_def)


lemma stop_timers:
  "intervals (stopPeriodicUpdates r) \<subseteq> intervals r
   \<and> periodicCommandsInterval (stopPeriodicUpdates r) = periodicCommandsInterval r
   \<and> next_timer (stopPeriodicUpdates r) = next_timer r
   \<and> publish_calls (stopPeriodicUpdates r) = publish_calls r"
  by (auto simp: stopPeriodicUpdates_def split: option.splits)

text \<open>Without a start, no timer is set and the stored handle stays.\<close>

lemma run_no_start:
  "Start \<notin> set steps \<Longrightarrow>
     intervals (run c tok steps r) \<subseteq> intervals r
     \<and> periodicCommandsInterval (run c tok steps r) = periodicCommandsInterval r"
proof (induction steps arbitrary: r)
  case Nil
  show ?case by simp
next
  case (Cons x steps)
  show ?case
  proof (cases x)
    case Start
    with Cons.prems show ?thesis by simp
  next
    case Stop
    have "Start \<notin> set steps" using Cons.prems by simp
    from Cons.IH [OF this, of "stopPeriodicUpdates r"] stop_timers [of r] Stop
    show ?thesis by auto
  next
    case (Elapses t n)
    have "Start \<notin> set steps" using Cons.prems by simp
    from Cons.IH [OF this, of "interval_elapses c tok n t r"] elapses_timers [of c tok n t r]
      Elapses
    show ?thesis by auto
  qed
qed

text \<open>With no timer set and no start, nothing publishes.\<close>

lemma run_no_timer:
  "Start \<notin> set steps \<Longrightarrow> intervals r = {} \<Longrightarrow>
     publish_calls (run c tok steps r) = publish_calls r"
proof (induction steps arbitrary: r)
  case Nil
  show ?case by simp
next
  case (Cons x steps)
  have rest: "Start \<notin> set steps" using Cons.prems by simp
  show ?case
  proof (cases x)
    case Start
    with Cons.prems show ?thesis by simp
  next
    case Stop
    have "intervals (stopPeriodicUpdates r) = {}"
      using stop_timers [of r] Cons.prems(2) by auto
    from Cons.IH [OF rest this] stop_timers [of r] Stop show ?thesis by simp
  next
    case (Elapses t n)
    have "interval_elapses c tok n t r = r"
      using Cons.prems(2) by (simp add: elapses_not_set)
    with Cons.IH [OF rest Cons.prems(2)] Elapses show ?thesis by simp
  qed
qed

lemma start_then_stop_clears:
  assumes "Start \<notin> set between" and "intervals r = {}"
  shows "intervals (stopPeriodicUpdates (run c tok between (startPeriodicUpdates r))) = {}"
proof -
  let ?s = "startPeriodicUpdates r"
  let ?m = "run c tok between ?s"
  have s: "intervals ?s = {next_timer r}" "periodicCommandsInterval ?s = Some (next_timer r)"
    using assms(2) by (simp_all add: startPeriodicUpdates_def Let_def)
  have m: "intervals ?m \<subseteq> {next_timer r}" "periodicCommandsInterval ?m = Some (next_timer r)"
    using run_no_start [OF assms(1), of c tok ?s] s by auto
  show ?thesis
    using m by (auto simp: stopPeriodicUpdates_def)
qed

text \<open>
  Claim C9. Take an execution that begins with no interval set and calls
  \<^verbatim>\<open>startPeriodicUpdates\<close> once, with a call of \<^verbatim>\<open>stopPeriodicUpdates\<close>
  somewhere after it. Whatever else happens (intervals elapsing, further stops),
  the interval callbacks call \<^verbatim>\<open>postCommandsToTopGG\<close> no more after that stop:
  the count at the end is the count at the stop. A stop right after a stop changes
  nothing but the log, where it may repeat its line: timers, stored handle, count
  and requests sent are as the first stop left them. A stop with no handle stored,
  so before any start, changes nothing at all.
\<close>

theorem stop_ends_periodic_updates:
  assumes "Start \<notin> set before" and "Start \<notin> set between" and "Start \<notin> set after"
    and "intervals r = {}"
  shows "publish_calls (run c tok (before @ [Start] @ between @ [Stop] @ after) r)
           = publish_calls (run c tok (before @ [Start] @ between @ [Stop]) r)
         \<and> (\<exists>w. stopPeriodicUpdates (stopPeriodicUpdates r')
                  = (stopPeriodicUpdates r')\<lparr>rt_world := w\<rparr>
                \<and> requests w = requests (rt_world (stopPeriodicUpdates r')))
         \<and> (periodicCommandsInterval r' = None \<longrightarrow> stopPeriodicUpdates r' = r')"
proof -
  let ?b = "run c tok before r"
  have b: "intervals ?b = {}"
    using run_no_start [OF assms(1), of c tok r] assms(4) by simp
  let ?stopped = "stopPeriodicUpdates (run c tok between (startPeriodicUpdates ?b))"
  have cleared: "intervals ?stopped = {}"
    by (rule start_then_stop_clears [OF assms(2) b])
  have shape: "run c tok (before @ [Start] @ between @ [Stop]) r = ?stopped"
    by (simp add: run_append)
  have "run c tok (before @ [Start] @ between @ [Stop] @ after) r = run c tok after ?stopped"
    by (simp add: run_append)
  then have first: "publish_calls (run c tok (before @ [Start] @ between @ [Stop] @ after) r)
           = publish_calls (run c tok (before @ [Start] @ between @ [Stop]) r)"
    using run_no_timer [OF assms(3) cleared, of c tok] shape by simp
  have idem: "\<exists>w. stopPeriodicUpdates (stopPeriodicUpdates r')
                  = (stopPeriodicUpdates r')\<lparr>rt_world := w\<rparr>
                \<and> requests w = requests (rt_world (stopPeriodicUpdates r'))"
  proof (cases "periodicCommandsInterval r'")
    case None
    then have "stopPeriodicUpdates (stopPeriodicUpdates r')
        = (stopPeriodicUpdates r')\<lparr>rt_world := rt_world (stopPeriodicUpdates r')\<rparr>"
      by (simp add: stopPeriodicUpdates_def)
    then show ?thesis by blast
  next
    case (Some t)
    let ?w = "say Info Stopped_periodic (say Info Stopped_periodic (rt_world r'))"
    have "stopPeriodicUpdates (stopPeriodicUpdates r')
            = (stopPeriodicUpdates r')\<lparr>rt_world := ?w\<rparr>"
      using Some by (simp add: stopPeriodicUpdates_def)
    moreover have "requests ?w = requests (rt_world (stopPeriodicUpdates r'))"
      using Some by (simp add: stopPeriodicUpdates_def)
    ultimately show ?thesis by blast
  qed
  have noop: "periodicCommandsInterval r' = None \<longrightarrow> stopPeriodicUpdates r' = r'"
    by (simp add: stopPeriodicUpdates_def)
  from first idem noop show ?thesis by blast
qed

theorem stop_ends_periodic_updates_witness:
  "Start \<notin> set [Stop]
   \<and> Start \<notin> set [Elapses 0 example_net]
   \<and> Start \<notin> set [Elapses 0 example_net, Stop, Elapses 0 example_net]
   \<and> intervals fresh = {}
   \<and> publish_calls (run example_client (Some ''token'')
        ([Stop] @ [Start] @ [Elapses 0 example_net] @ [Stop]
          @ [Elapses 0 example_net, Stop, Elapses 0 example_net]) fresh) = 1
   \<and> publish_calls (run example_client (Some ''token'')
        ([Stop] @ [Start] @ [Elapses 0 example_net] @ [Stop]) fresh) = 1
   \<and> stopPeriodicUpdates fresh = fresh"
proof -
  have h: "Start \<notin> set [Stop]" "Start \<notin> set [Elapses 0 example_net]"
    "Start \<notin> set [Elapses 0 example_net, Stop, Elapses 0 example_net]"
    "intervals fresh = {}"
    by (simp_all add: fresh_def)
  have handle: "periodicCommandsInterval fresh = None" by (simp add: fresh_def)
  have at_stop: "publish_calls (run example_client (Some ''token'')
        ([Stop] @ [Start] @ [Elapses 0 example_net] @ [Stop]) fresh) = 1"
    by (simp add: fresh_def stopPeriodicUpdates_def startPeriodicUpdates_def
        interval_elapses_def split: prod.splits sum.splits)
  have noop: "stopPeriodicUpdates fresh = fresh"
    by (simp add: stopPeriodicUpdates_def handle)
  show ?thesis
    using h at_stop
      stop_ends_periodic_updates [OF h, of example_client "Some ''token''" fresh]
    by (simp add: noop)
qed






section \<open>The command synchronizer, verified\<close>

text \<open>\<open>includes_str\<close> and \<open>findIndex\<close> are the JavaScript functions they stand for.\<close>

lemma starts_with_iff: "starts_with s pat \<longleftrightarrow> (\<exists>post. s = pat @ post)"
  by (induction s pat rule: starts_with.induct) auto

lemma includes_str_iff: "includes_str s pat \<longleftrightarrow> (\<exists>pre post. s = pre @ pat @ post)"
proof (induction s)
  case Nil
  show ?case by auto
next
  case (Cons c cs)
  have "(\<exists>pre post. c # cs = pre @ pat @ post)
          \<longleftrightarrow> (\<exists>post. c # cs = pat @ post) \<or> (\<exists>pre post. cs = pre @ pat @ post)"
  proof
    assume "\<exists>pre post. c # cs = pre @ pat @ post"
    then obtain pre post where eq: "c # cs = pre @ pat @ post" by blast
    show "(\<exists>post. c # cs = pat @ post) \<or> (\<exists>pre post. cs = pre @ pat @ post)"
    proof (cases pre)
      case Nil
      with eq show ?thesis by auto
    next
      case (Cons p pre')
      with eq have "cs = pre' @ pat @ post" by simp
      then show ?thesis by blast
    qed
  next
    assume "(\<exists>post. c # cs = pat @ post) \<or> (\<exists>pre post. cs = pre @ pat @ post)"
    then show "\<exists>pre post. c # cs = pre @ pat @ post"
    proof
      assume "\<exists>post. c # cs = pat @ post"
      then obtain post where "c # cs = [] @ pat @ post" by auto
      then show ?thesis by blast
    next
      assume "\<exists>pre post. cs = pre @ pat @ post"
      then obtain pre post where "c # cs = (c # pre) @ pat @ post" by auto
      then show ?thesis by blast
    qed
  qed
  with Cons.IH show ?case by (simp add: starts_with_iff)
qed

lemma findIndex_None_iff: "findIndex p xs = None \<longleftrightarrow> (\<forall>x\<in>set xs. \<not> p x)"
  by (induction xs) auto

lemma findIndex_Some_iff:
  "findIndex p xs = Some i \<longleftrightarrow> i < length xs \<and> p (xs ! i) \<and> (\<forall>j<i. \<not> p (xs ! j))"
proof (induction xs arbitrary: i)
  case Nil
  show ?case by simp
next
  case (Cons x xs)
  show ?case
  proof (cases "p x")
    case True
    then show ?thesis by (cases i) auto
  next
    case False
    show ?thesis
    proof (cases i)
      case 0
      with False show ?thesis by auto
    next
      case (Suc k)
      have "(\<forall>j<Suc k. \<not> p ((x # xs) ! j)) \<longleftrightarrow> (\<forall>j<k. \<not> p (xs ! j))"
        using False by (auto simp: less_Suc_eq_0_disj)
      with Suc False Cons.IH [of k] show ?thesis by auto
    qed
  qed
qed

lemma findIndex_Some_mem: "findIndex p xs = Some i \<Longrightarrow> \<exists>x\<in>set xs. p x"
  using findIndex_None_iff [of p xs] by auto

lemma merge_one_fst:
  "fst (merge_one d ys w) =
     put_back d ys @ (if api_name d \<in> api_name ` set ys then [] else [d])"
proof (cases "findIndex (\<lambda>cmd. api_name cmd = api_name d) ys")
  case None
  then have "api_name d \<notin> api_name ` set ys"
    by (auto simp: findIndex_None_iff)
  with None show ?thesis by (simp add: merge_one_def put_back_def)
next
  case (Some i)
  have "api_name d \<in> api_name ` set ys"
    using findIndex_Some_mem [OF Some] by (metis image_eqI)
  with Some show ?thesis by (simp add: merge_one_def put_back_def)
qed

lemma length_put_back [simp]: "length (put_back d ys) = length ys"
  by (simp add: put_back_def split: option.splits)

lemma names_put_back [simp]: "map api_name (put_back d ys) = map api_name ys"
  by (auto simp: put_back_def findIndex_Some_iff map_update list_update_same_conv
      split: option.splits)

lemma set_names_put_back [simp]: "api_name ` set (put_back d ys) = api_name ` set ys"
proof -
  have "set (map api_name (put_back d ys)) = set (map api_name ys)" by simp
  then show ?thesis by (simp only: set_map)
qed

lemma findIndex_append:
  "findIndex p (ys @ [e]) =
     (case findIndex p ys of Some i \<Rightarrow> Some i | None \<Rightarrow> if p e then Some (length ys) else None)"
  by (induction ys) (auto split: option.splits)

lemma put_back_append:
  "api_name e \<noteq> api_name d \<Longrightarrow> put_back d (ys @ [e]) = put_back d ys @ [e]"
proof (cases "findIndex (\<lambda>cmd. api_name cmd = api_name d) ys")
  case None
  assume "api_name e \<noteq> api_name d"
  with None show ?thesis by (simp add: put_back_def findIndex_append)
next
  case (Some i)
  then have "i < length ys" by (simp add: findIndex_Some_iff)
  with Some show ?thesis by (simp add: put_back_def findIndex_append list_update_append1)
qed

lemma merge_two_fst:
  assumes "api_name a \<noteq> api_name b"
  shows "fst (merge_each [a, b] xs w) =
     put_back b (put_back a xs) @ filter (\<lambda>d. api_name d \<notin> api_name ` set xs) [a, b]"
proof -
  obtain ys w1 where one: "merge_one a xs w = (ys, w1)" by (cases "merge_one a xs w")
  have ys: "ys = put_back a xs @ (if api_name a \<in> api_name ` set xs then [] else [a])"
    using merge_one_fst [of a xs w] one by simp
  have names: "api_name b \<in> api_name ` set ys \<longleftrightarrow> api_name b \<in> api_name ` set xs"
    using assms by (auto simp: ys image_Un)
  have pb: "put_back b ys = put_back b (put_back a xs)
              @ (if api_name a \<in> api_name ` set xs then [] else [a])"
    using assms by (simp add: ys put_back_append)
  have "fst (merge_each [a, b] xs w) = fst (merge_one b ys w1)"
    using one by (simp split: prod.splits)
  also have "\<dots> = put_back b ys @ (if api_name b \<in> api_name ` set ys then [] else [b])"
    by (rule merge_one_fst)
  finally show ?thesis
    using pb names by simp
qed

lemma put_back_nth:
  assumes "i < length ys"
  shows "put_back d ys ! i =
     (if api_name (ys ! i) = api_name d \<and> (\<forall>j<i. api_name (ys ! j) \<noteq> api_name d)
      then d else ys ! i)"
proof (cases "findIndex (\<lambda>cmd. api_name cmd = api_name d) ys")
  case None
  then have "api_name (ys ! i) \<noteq> api_name d"
    using assms by (auto simp: findIndex_None_iff)
  with None show ?thesis by (simp add: put_back_def)
next
  case (Some k)
  then have k: "k < length ys" "api_name (ys ! k) = api_name d"
    "\<forall>j<k. api_name (ys ! j) \<noteq> api_name d"
    by (simp_all add: findIndex_Some_iff)
  have "i = k \<longleftrightarrow> api_name (ys ! i) = api_name d \<and> (\<forall>j<i. api_name (ys ! j) \<noteq> api_name d)"
    using k by (metis nat_neq_iff)
  with Some k assms show ?thesis by (auto simp: put_back_def)
qed

lemma merge_each_world:
  "requests (snd (merge_each ds ys w)) = requests w
   \<and> set (logged w) \<subseteq> set (logged (snd (merge_each ds ys w)))"
proof (induction ds arbitrary: ys w)
  case Nil
  show ?case by simp
next
  case (Cons d ds)
  obtain ys' w' where one: "merge_one d ys w = (ys', w')" by (cases "merge_one d ys w")
  then have "requests w' = requests w \<and> set (logged w) \<subseteq> set (logged w')"
    by (auto simp: merge_one_def split: option.splits)
  with Cons.IH [of ys' w'] one show ?case by auto
qed

lemma new_names: "api_name (slash_command ''ping'' d) \<noteq> api_name (slash_command ''info'' d')"
  by (simp add: slash_command_def)

lemma merge_new_fst:
  "fst (merge_each newCommands xs w) =
     put_back (slash_command ''info'' ''Get bot information'')
       (put_back (slash_command ''ping'' ''Check bot latency'') xs)
     @ filter (\<lambda>d. api_name d \<notin> api_name ` set xs) newCommands"
  unfolding newCommands_def by (rule merge_two_fst [OF new_names])

lemma merge_new_empty: "fst (merge_each newCommands [] w) = newCommands"
  by (simp add: merge_new_fst put_back_def) 

lemma create_each_result:
  "fst (create_each n rt ds k w) = k + length (filter (\<lambda>d. \<not> isl (rest_post n rt d)) ds)
   \<and> requests (snd (create_each n rt ds k w)) = requests w @ map (Rest_post rt) ds
   \<and> set (logged w) \<subseteq> set (logged (snd (create_each n rt ds k w)))"
proof (induction ds arbitrary: k w)
  case Nil
  show ?case by simp
next
  case (Cons d ds)
  show ?case
  proof (cases "rest_post n rt d")
    case (Inr created)
    let ?w = "say Info (Created (api_name d)) (send (Rest_post rt d) w)"
    from Cons.IH [of "Suc k" ?w] Inr show ?thesis by auto
  next
    case (Inl cmdError)
    show ?thesis
    proof (cases "includes_str (message cmdError) ''already exists''")
      case True
      let ?w = "say Info (Already_exists (api_name d)) (send (Rest_post rt d) w)"
      from Cons.IH [of k ?w] Inl True show ?thesis by auto
    next
      case False
      let ?w = "say Err (Failed_to_create (api_name d) (message cmdError))
                  (send (Rest_post rt d) w)"
      from Cons.IH [of k ?w] Inl False show ?thesis by auto
    qed
  qed
qed

lemma create_each_already_exists:
  "d \<in> set ds \<Longrightarrow> rest_post n rt d = Inl cmdError \<Longrightarrow>
   includes_str (message cmdError) ''already exists'' \<Longrightarrow>
   (Info, Already_exists (api_name d)) \<in> set (logged (snd (create_each n rt ds k w)))"
proof (induction ds arbitrary: k w)
  case Nil
  then show ?case by simp
next
  case (Cons x ds)
  show ?case
  proof (cases "x = d")
    case True
    let ?w = "say Info (Already_exists (api_name d)) (send (Rest_post rt d) w)"
    have "(Info, Already_exists (api_name d)) \<in> set (logged ?w)" by simp
    then have "(Info, Already_exists (api_name d))
        \<in> set (logged (snd (create_each n rt ds k ?w)))"
      using create_each_result [of n rt ds k ?w] by blast
    with True Cons.prems show ?thesis by simp
  next
    case False
    with Cons.prems have mem: "d \<in> set ds" by simp
    note ih = Cons.IH [OF mem Cons.prems(2) Cons.prems(3)]
    show ?thesis
      by (cases "rest_post n rt x") (auto simp: ih)
  qed
qed

lemma merge_commands_facts:
  "fst (merge_commands c n guildId w) =
     fst (merge_each newCommands
            (case rest_get n (route_of c guildId) of Inr xs \<Rightarrow> xs | Inl e \<Rightarrow> []) w')
   \<and> requests (snd (merge_commands c n guildId w))
       = requests w @ [Rest_get (route_of c guildId)]
   \<and> set (logged (snd (fetch_existing c n guildId w)))
       \<subseteq> set (logged (snd (merge_commands c n guildId w)))"
proof -
  obtain xs w1 where f: "fetch_existing c n guildId w = (xs, w1)"
    by (cases "fetch_existing c n guildId w")
  then have xs: "xs = (case rest_get n (route_of c guildId) of Inr xs \<Rightarrow> xs | Inl e \<Rightarrow> [])"
    and w1: "requests w1 = requests w @ [Rest_get (route_of c guildId)]"
    by (auto simp: fetch_existing_def Let_def split: sum.splits)
  have m: "merge_commands c n guildId w = merge_each newCommands xs w1"
    using f by (simp add: merge_commands_def)
  have "fst (merge_each newCommands xs w1) = fst (merge_each newCommands xs w')"
    by (simp add: merge_new_fst)
  with m xs w1 f merge_each_world [of newCommands xs w1] show ?thesis by simp
qed

lemma sync_try_facts:
  "fst (sync_try c n guildId w) =
     (case rest_put n (route_of c guildId) (fst (merge_commands c n guildId w)) of
        Inl e \<Rightarrow> Inl e | Inr synced \<Rightarrow> Inr (length synced))
   \<and> requests (snd (sync_try c n guildId w)) =
       requests w @ [Rest_get (route_of c guildId),
                     Rest_put (route_of c guildId) (fst (merge_commands c n guildId w))]
   \<and> set (logged (snd (merge_commands c n guildId w)))
       \<subseteq> set (logged (snd (sync_try c n guildId w)))"
proof -
  obtain ys w2 where m: "merge_commands c n guildId w = (ys, w2)"
    by (cases "merge_commands c n guildId w")
  have r: "requests w2 = requests w @ [Rest_get (route_of c guildId)]"
    using merge_commands_facts [of c n guildId w w] m by simp
  show ?thesis
    using m r by (auto simp: sync_try_def Let_def split: sum.splits)
qed

lemma syncCommands_facts:
  "fst (syncCommands c n guildId w) =
     (case rest_put n (route_of c guildId) (fst (merge_commands c n guildId w)) of
        Inr synced \<Rightarrow> length synced
      | Inl e \<Rightarrow>
          if includes_str (message e) ''Entry Point''
          then length (filter (\<lambda>d. \<not> isl (rest_post n (route_of c guildId) d)) newCommands)
          else 0)
   \<and> requests (snd (syncCommands c n guildId w)) =
       requests w @ [Rest_get (route_of c guildId),
                     Rest_put (route_of c guildId) (fst (merge_commands c n guildId w))]
       @ (case rest_put n (route_of c guildId) (fst (merge_commands c n guildId w)) of
            Inr synced \<Rightarrow> []
          | Inl e \<Rightarrow>
              if includes_str (message e) ''Entry Point''
              then map (Rest_post (route_of c guildId)) newCommands
              else [])
   \<and> set (logged (snd (sync_try c n guildId w)))
       \<subseteq> set (logged (snd (syncCommands c n guildId w)))"
proof -
  obtain res w1 where t: "sync_try c n guildId w = (res, w1)"
    by (cases "sync_try c n guildId w")
  note facts = sync_try_facts [of c n guildId w]
  show ?thesis
  proof (cases res)
    case (Inr count)
    with t facts show ?thesis
      by (auto simp: syncCommands_def split: sum.splits)
  next
    case (Inl e)
    with t facts have put: "rest_put n (route_of c guildId) (fst (merge_commands c n guildId w)) = Inl e"
      by (auto split: sum.splits)
    show ?thesis
    proof (cases "includes_str (message e) ''Entry Point''")
      case False
      with Inl t facts put show ?thesis
        by (auto simp: syncCommands_def Let_def)
    next
      case True
      let ?w = "say Info Attempting_individual (say Err (Failed_to_sync (message e)) w1)"
      note ce = create_each_result [of n "route_of c guildId" newCommands 0 ?w]
      have s: "syncCommands c n guildId w =
                 create_each n (route_of c guildId) newCommands 0 ?w"
        using Inl t True by (simp add: syncCommands_def createCommandsIndividually_def Let_def)
      have l: "set (logged w1) \<subseteq> set (logged ?w)" by auto
      from s ce l t facts put True show ?thesis by auto
    qed
  qed
qed

lemma put_back_name_nth:
  "j < length ys \<Longrightarrow> api_name (put_back d ys ! j) = api_name (ys ! j)"
proof -
  assume j: "j < length ys"
  have "map api_name (put_back d ys) ! j = map api_name ys ! j" by simp
  with j show ?thesis by (simp del: names_put_back)
qed

lemma put_back_twice_nth:
  assumes "api_name a \<noteq> api_name b" and "i < length xs"
  shows "put_back b (put_back a xs) ! i =
     (if api_name (xs ! i) = api_name b \<and> (\<forall>j<i. api_name (xs ! j) \<noteq> api_name b) then b
      else if api_name (xs ! i) = api_name a \<and> (\<forall>j<i. api_name (xs ! j) \<noteq> api_name a) then a
      else xs ! i)"
proof -
  let ?ys = "put_back a xs"
  have len: "i < length ?ys" using assms(2) by simp
  have names: "\<forall>j\<le>i. api_name (?ys ! j) = api_name (xs ! j)"
    using assms(2) by (simp add: put_back_name_nth)
  have "put_back b ?ys ! i =
     (if api_name (?ys ! i) = api_name b \<and> (\<forall>j<i. api_name (?ys ! j) \<noteq> api_name b)
      then b else ?ys ! i)"
    by (rule put_back_nth [OF len])
  also have "\<dots> =
     (if api_name (xs ! i) = api_name b \<and> (\<forall>j<i. api_name (xs ! j) \<noteq> api_name b)
      then b else ?ys ! i)"
    using names by auto
  finally show ?thesis
    using assms put_back_nth [OF assms(2), of a] by auto
qed

text \<open>
  Claim C1, for \<^verbatim>\<open>syncCommands\<close> of \<^verbatim>\<open>src/discordjs/index.js\<close>. When the fetch
  yields the list \<open>existing\<close>, the requests of the call are the fetch, then the bulk
  overwrite with a list \<open>allCommands\<close>, then at most the individual creates; and
  \<^item> a desired command (\<^verbatim>\<open>ping\<close>, \<^verbatim>\<open>info\<close>) whose name some existing command
    has stands in \<open>allCommands\<close> at the position of that existing command (of the
    first one, should several have the name);
  \<^item> an existing command with another name than \<^verbatim>\<open>ping\<close> and \<^verbatim>\<open>info\<close> stands
    where it stood;
  \<^item> after the positions of \<open>existing\<close> come the desired commands that no existing
    command is named as, in the order \<^verbatim>\<open>ping\<close>, \<^verbatim>\<open>info\<close>, and nothing else: a
    desired command that replaced an existing one is not added again.

  \<^verbatim>\<open>syncCommands\<close> of \<^verbatim>\<open>src/unnamed/part_000\<close> has no desired commands: its
  bulk overwrite carries the fetched list as it is.
\<close>

theorem syncCommands_combined_list:
  assumes "rest_get n (route_of c guildId) = Inr existing"
  shows "\<exists>allCommands posts.
      requests (snd (syncCommands c n guildId w)) =
        requests w @ Rest_get (route_of c guildId)
          # Rest_put (route_of c guildId) allCommands # posts
    \<and> length allCommands = length existing
        + length (filter (\<lambda>d. api_name d \<notin> api_name ` set existing) newCommands)
    \<and> (\<forall>d\<in>set newCommands. \<forall>i<length existing.
          api_name (existing ! i) = api_name d
          \<and> (\<forall>j<i. api_name (existing ! j) \<noteq> api_name d) \<longrightarrow> allCommands ! i = d)
    \<and> (\<forall>i<length existing.
          api_name (existing ! i) \<notin> api_name ` set newCommands \<longrightarrow>
          allCommands ! i = existing ! i)
    \<and> drop (length existing) allCommands
        = filter (\<lambda>d. api_name d \<notin> api_name ` set existing) newCommands
    \<and> requests (snd (syncCommands_part_000 c n guildId w)) =
        requests w @ [Rest_get (route_of c guildId), Rest_put (route_of c guildId) existing]"
proof -
  let ?rt = "route_of c guildId"
  let ?a = "slash_command ''ping'' ''Check bot latency''"
  let ?b = "slash_command ''info'' ''Get bot information''"
  let ?kept = "put_back ?b (put_back ?a existing)"
  let ?added = "filter (\<lambda>d. api_name d \<notin> api_name ` set existing) newCommands"
  let ?all = "fst (merge_commands c n guildId w)"
  have ab: "api_name ?a \<noteq> api_name ?b" by (rule new_names)
  have all: "?all = ?kept @ ?added"
    using merge_commands_facts [of c n guildId w w] assms by (simp add: merge_new_fst)
  have kept_len: "length ?kept = length existing" by simp
  have nth: "\<And>i. i < length existing \<Longrightarrow> ?all ! i = ?kept ! i"
    using kept_len by (simp add: all nth_append)
  have req: "\<exists>posts. requests (snd (syncCommands c n guildId w)) =
        requests w @ Rest_get ?rt # Rest_put ?rt ?all # posts"
    using syncCommands_facts [of c n guildId w] by simp
  have len: "length ?all = length existing + length ?added"
    by (simp add: all)
  have replaced: "\<forall>d\<in>set newCommands. \<forall>i<length existing.
          api_name (existing ! i) = api_name d
          \<and> (\<forall>j<i. api_name (existing ! j) \<noteq> api_name d) \<longrightarrow> ?all ! i = d"
  proof (intro ballI allI impI)
    fix d i
    assume d: "d \<in> set newCommands" and i: "i < length existing"
      and first: "api_name (existing ! i) = api_name d
          \<and> (\<forall>j<i. api_name (existing ! j) \<noteq> api_name d)"
    from d have "d = ?a \<or> d = ?b" by (auto simp: newCommands_def)
    then have "?kept ! i = d"
      using put_back_twice_nth [OF ab i] first ab by auto
    with nth [OF i] show "?all ! i = d" by simp
  qed
  have preserved: "\<forall>i<length existing.
          api_name (existing ! i) \<notin> api_name ` set newCommands \<longrightarrow> ?all ! i = existing ! i"
  proof (intro allI impI)
    fix i
    assume i: "i < length existing"
      and other: "api_name (existing ! i) \<notin> api_name ` set newCommands"
    from other have "api_name (existing ! i) \<noteq> api_name ?a"
      "api_name (existing ! i) \<noteq> api_name ?b"
      by (auto simp: newCommands_def)
    then have "?kept ! i = existing ! i"
      using put_back_twice_nth [OF ab i] by simp
    with nth [OF i] show "?all ! i = existing ! i" by simp
  qed
  have appended: "drop (length existing) ?all = ?added"
    using kept_len by (simp add: all)
  have other: "requests (snd (syncCommands_part_000 c n guildId w)) =
        requests w @ [Rest_get ?rt, Rest_put ?rt existing]"
    using assms by (simp add: syncCommands_part_000_def Let_def split: sum.splits)
  from req obtain posts where "requests (snd (syncCommands c n guildId w)) =
        requests w @ Rest_get ?rt # Rest_put ?rt ?all # posts" ..
  with len replaced preserved appended other show ?thesis by blast
qed

theorem syncCommands_combined_list_witness:
  "rest_get example_net (route_of example_client None) = Inr [launch_command, old_ping]
   \<and> (\<exists>allCommands posts.
        requests (snd (syncCommands example_client example_net None empty_world)) =
          Rest_get (Application_commands ''1234'')
            # Rest_put (Application_commands ''1234'') allCommands # posts
        \<and> length allCommands = 3
        \<and> allCommands ! 0 = launch_command
        \<and> allCommands ! 1 = slash_command ''ping'' ''Check bot latency''
        \<and> drop 2 allCommands = [slash_command ''info'' ''Get bot information''])
   \<and> requests (snd (syncCommands_part_000 example_client example_net None empty_world)) =
        [Rest_get (Application_commands ''1234''),
         Rest_put (Application_commands ''1234'') [launch_command, old_ping]]"
proof -
  let ?rt = "route_of example_client None"
  let ?ping = "slash_command ''ping'' ''Check bot latency''"
  have h: "rest_get example_net ?rt = Inr [launch_command, old_ping]"
    by (simp add: example_net_def)
  have rt: "?rt = Application_commands ''1234''"
    by (simp add: route_of_def example_client_def)
  have names: "api_name launch_command = ''launch''" "api_name old_ping = ''ping''"
    "api_name ` set newCommands = {''ping'', ''info''}"
    by (simp_all add: launch_command_def old_ping_def newCommands_def slash_command_def)
  have added: "filter (\<lambda>d. api_name d \<notin> api_name ` set [launch_command, old_ping]) newCommands
                 = [slash_command ''info'' ''Get bot information'']"
    by (simp add: names newCommands_def slash_command_def)
  from syncCommands_combined_list [OF h, of empty_world]
  obtain allCommands posts where
    req: "requests (snd (syncCommands example_client example_net None empty_world)) =
        requests empty_world @ Rest_get ?rt # Rest_put ?rt allCommands # posts"
    and len: "length allCommands = length [launch_command, old_ping]
        + length (filter (\<lambda>d. api_name d \<notin> api_name ` set [launch_command, old_ping])
            newCommands)"
    and replaced: "\<forall>d\<in>set newCommands. \<forall>i<length [launch_command, old_ping].
          api_name ([launch_command, old_ping] ! i) = api_name d
          \<and> (\<forall>j<i. api_name ([launch_command, old_ping] ! j) \<noteq> api_name d) \<longrightarrow>
          allCommands ! i = d"
    and preserved: "\<forall>i<length [launch_command, old_ping].
          api_name ([launch_command, old_ping] ! i) \<notin> api_name ` set newCommands \<longrightarrow>
          allCommands ! i = [launch_command, old_ping] ! i"
    and appended: "drop (length [launch_command, old_ping]) allCommands
        = filter (\<lambda>d. api_name d \<notin> api_name ` set [launch_command, old_ping]) newCommands"
    and other: "requests (snd (syncCommands_part_000 example_client example_net None
          empty_world)) =
        requests empty_world @ [Rest_get ?rt, Rest_put ?rt [launch_command, old_ping]]"
    by blast
  have "?ping \<in> set newCommands" by (simp add: newCommands_def)
  with replaced have "\<forall>i<length [launch_command, old_ping].
          api_name ([launch_command, old_ping] ! i) = api_name ?ping
          \<and> (\<forall>j<i. api_name ([launch_command, old_ping] ! j) \<noteq> api_name ?ping) \<longrightarrow>
          allCommands ! i = ?ping"
    by blast
  then have "api_name ([launch_command, old_ping] ! 1) = api_name ?ping
          \<and> (\<forall>j<1. api_name ([launch_command, old_ping] ! j) \<noteq> api_name ?ping) \<longrightarrow>
          allCommands ! 1 = ?ping"
    by simp
  then have at1: "allCommands ! 1 = ?ping"
    by (simp add: names slash_command_def)
  from preserved have "api_name ([launch_command, old_ping] ! 0) \<notin> api_name ` set newCommands
      \<longrightarrow> allCommands ! 0 = [launch_command, old_ping] ! 0"
    by simp
  then have at0: "allCommands ! 0 = launch_command"
    by (simp add: names)
  have len3: "length allCommands = 3" using len added by simp
  have drop2: "drop 2 allCommands = [slash_command ''info'' ''Get bot information'']"
    using appended added by (simp add: numeral_2_eq_2)
  have req': "requests (snd (syncCommands example_client example_net None empty_world)) =
          Rest_get (Application_commands ''1234'')
            # Rest_put (Application_commands ''1234'') allCommands # posts"
    using req rt by (simp add: empty_world_def)
  have other': "requests (snd (syncCommands_part_000 example_client example_net None
          empty_world)) =
        [Rest_get (Application_commands ''1234''),
         Rest_put (Application_commands ''1234'') [launch_command, old_ping]]"
    using other rt by (simp add: empty_world_def)
  from h req' len3 at0 at1 drop2 other' show ?thesis by blast
qed

text \<open>
  Where the claim fails as stated: \<^verbatim>\<open>syncCommands\<close> of
  \<^verbatim>\<open>src/unnamed/part_000\<close>, on a scope that holds one command of another name,
  overwrites the scope with that one command; \<^verbatim>\<open>ping\<close> and \<^verbatim>\<open>info\<close> are not
  appended.
\<close>

theorem part_000_sends_fetched_list:
  "requests (snd (syncCommands_part_000 example_client net_launch_only None empty_world)) =
     [Rest_get (Application_commands ''1234''),
      Rest_put (Application_commands ''1234'') [launch_command]]
   \<and> set newCommands \<inter> set [launch_command] = {}"
  by (simp add: syncCommands_part_000_def route_of_def example_client_def example_net_def
      net_launch_only_def empty_world_def newCommands_def slash_command_def
      launch_command_def Let_def)

text \<open>
  Claim C5, for \<^verbatim>\<open>syncCommands\<close> of \<^verbatim>\<open>src/discordjs/index.js\<close>. When the fetch
  of the existing commands throws, the error is logged as a warning and the
  synchronization goes on as with an empty list: the bulk overwrite is sent and
  carries the desired commands, and the result and the requests are those of a run
  in which the fetch had answered with the empty list.

  \<^verbatim>\<open>syncCommands\<close> of \<^verbatim>\<open>src/unnamed/part_000\<close> stops there instead: it logs
  the error, sends nothing more and returns 0.
\<close>

theorem syncCommands_fetch_failure:
  assumes "rest_get n (route_of c guildId) = Inl e"
  shows "(Warn, Could_not_fetch_existing (message e))
           \<in> set (logged (snd (syncCommands c n guildId w)))
    \<and> (\<exists>posts. requests (snd (syncCommands c n guildId w)) =
          requests w @ Rest_get (route_of c guildId)
            # Rest_put (route_of c guildId) newCommands # posts)
    \<and> fst (syncCommands c n guildId w)
        = fst (syncCommands c (n\<lparr>rest_get := \<lambda>rt. Inr []\<rparr>) guildId w)
    \<and> requests (snd (syncCommands c n guildId w))
        = requests (snd (syncCommands c (n\<lparr>rest_get := \<lambda>rt. Inr []\<rparr>) guildId w))
    \<and> syncCommands_part_000 c n guildId w =
        (0, say Err (Error_syncing (message e)) (send (Rest_get (route_of c guildId)) w))"
proof -
  let ?rt = "route_of c guildId"
  let ?n = "n\<lparr>rest_get := \<lambda>rt. Inr []\<rparr>"
  have all: "fst (merge_commands c n guildId w) = newCommands"
    using merge_commands_facts [of c n guildId w w] assms by (simp add: merge_new_empty)
  have all': "fst (merge_commands c ?n guildId w) = newCommands"
    using merge_commands_facts [of c ?n guildId w w] by (simp add: merge_new_empty)
  have "(Warn, Could_not_fetch_existing (message e))
          \<in> set (logged (snd (fetch_existing c n guildId w)))"
    using assms by (simp add: fetch_existing_def Let_def)
  then have logged: "(Warn, Could_not_fetch_existing (message e))
           \<in> set (logged (snd (syncCommands c n guildId w)))"
    using merge_commands_facts [of c n guildId w w] sync_try_facts [of c n guildId w]
      syncCommands_facts [of c n guildId w] by blast
  have sent: "\<exists>posts. requests (snd (syncCommands c n guildId w)) =
          requests w @ Rest_get ?rt # Rest_put ?rt newCommands # posts"
    using syncCommands_facts [of c n guildId w] all by simp
  have same: "fst (syncCommands c n guildId w) = fst (syncCommands c ?n guildId w)"
    "requests (snd (syncCommands c n guildId w)) = requests (snd (syncCommands c ?n guildId w))"
    using syncCommands_facts [of c n guildId w] syncCommands_facts [of c ?n guildId w] all all'
    by (simp_all split: sum.splits)
  have other: "syncCommands_part_000 c n guildId w =
        (0, say Err (Error_syncing (message e)) (send (Rest_get ?rt) w))"
    using assms by (simp add: syncCommands_part_000_def Let_def)
  from logged sent same other show ?thesis by blast
qed

theorem syncCommands_fetch_failure_witness:
  "rest_get net_fetch_fails (route_of example_client None) = Inl (Error ''Missing Access'')
   \<and> (Warn, Could_not_fetch_existing ''Missing Access'')
        \<in> set (logged (snd (syncCommands example_client net_fetch_fails None empty_world)))
   \<and> (\<exists>posts. requests (snd (syncCommands example_client net_fetch_fails None empty_world)) =
          Rest_get (Application_commands ''1234'')
            # Rest_put (Application_commands ''1234'') newCommands # posts)
   \<and> syncCommands_part_000 example_client net_fetch_fails None empty_world =
        (0, \<lparr> logged = [(Err, Error_syncing ''Missing Access'')],
               requests = [Rest_get (Application_commands ''1234'')] \<rparr>)"
proof -
  have h: "rest_get net_fetch_fails (route_of example_client None)
             = Inl (Error ''Missing Access'')"
    by (simp add: net_fetch_fails_def)
  have rt: "route_of example_client None = Application_commands ''1234''"
    by (simp add: route_of_def example_client_def)
  note fetch = syncCommands_fetch_failure [OF h, of empty_world]
  have warned: "(Warn, Could_not_fetch_existing (message (Error ''Missing Access'')))
        \<in> set (logged (snd (syncCommands example_client net_fetch_fails None empty_world)))"
    using fetch by blast
  have sent: "\<exists>posts. requests (snd (syncCommands example_client net_fetch_fails None
        empty_world)) =
      requests empty_world @ Rest_get (route_of example_client None)
        # Rest_put (route_of example_client None) newCommands # posts"
    using fetch by blast
  have other: "syncCommands_part_000 example_client net_fetch_fails None empty_world =
      (0, say Err (Error_syncing (message (Error ''Missing Access'')))
            (send (Rest_get (route_of example_client None)) empty_world))"
    using fetch by blast
  have sent': "\<exists>posts. requests (snd (syncCommands example_client net_fetch_fails None
        empty_world)) =
      Rest_get (Application_commands ''1234'')
        # Rest_put (Application_commands ''1234'') newCommands # posts"
    using sent by (simp add: rt empty_world_def)
  have other': "syncCommands_part_000 example_client net_fetch_fails None empty_world =
        (0, \<lparr> logged = [(Err, Error_syncing ''Missing Access'')],
               requests = [Rest_get (Application_commands ''1234'')] \<rparr>)"
    using other by (simp add: rt empty_world_def say_def send_def)
  from h warned sent' other' show ?thesis by simp
qed

text \<open>
  Where the claim fails as stated: in \<^verbatim>\<open>syncCommands\<close> of
  \<^verbatim>\<open>src/unnamed/part_000\<close> a failed fetch ends the synchronization. No bulk
  overwrite follows the fetch, and the result is 0.
\<close>

theorem part_000_fetch_failure_aborts:
  "syncCommands_part_000 example_client net_fetch_fails None empty_world =
     (0, \<lparr> logged = [(Err, Error_syncing ''Missing Access'')],
            requests = [Rest_get (Application_commands ''1234'')] \<rparr>)"
  by (simp add: syncCommands_part_000_def route_of_def example_client_def net_fetch_fails_def
      example_net_def empty_world_def say_def send_def Let_def)

text \<open>
  Claim C2, for \<^verbatim>\<open>syncCommands\<close> of \<^verbatim>\<open>src/discordjs/index.js\<close>. Let the bulk
  overwrite of the combined list throw \<open>e\<close>.
  \<^item> If the message of \<open>e\<close> contains \<^verbatim>\<open>Entry Point\<close>, every desired command is
    created on its own, on the route of the bulk overwrite, \<^verbatim>\<open>ping\<close> first and
    \<^verbatim>\<open>info\<close> second whatever the first create answers. The result is the number
    of creates that succeeded. A create that throws an error whose message contains
    \<^verbatim>\<open>already exists\<close> is logged as such and not counted.
  \<^item> Otherwise the result is 0 and nothing is sent after the bulk overwrite.

  \<^verbatim>\<open>syncCommands\<close> of \<^verbatim>\<open>src/unnamed/part_000\<close> has no individual creates: when
  its bulk overwrite throws, whatever the message, the result is 0 and nothing is
  sent after it.
\<close>

theorem syncCommands_bulk_failure:
  assumes "rest_put n (route_of c guildId) (fst (merge_commands c n guildId w)) = Inl e"
  shows "(if includes_str (message e) ''Entry Point''
          then fst (syncCommands c n guildId w) =
                 length (filter (\<lambda>d. \<not> isl (rest_post n (route_of c guildId) d)) newCommands)
             \<and> requests (snd (syncCommands c n guildId w)) =
                 requests w @ [Rest_get (route_of c guildId),
                   Rest_put (route_of c guildId) (fst (merge_commands c n guildId w))]
                 @ map (Rest_post (route_of c guildId)) newCommands
             \<and> (\<forall>d\<in>set newCommands. \<forall>cmdError.
                   rest_post n (route_of c guildId) d = Inl cmdError
                   \<and> includes_str (message cmdError) ''already exists'' \<longrightarrow>
                   (Info, Already_exists (api_name d))
                     \<in> set (logged (snd (syncCommands c n guildId w))))
          else fst (syncCommands c n guildId w) = 0
             \<and> requests (snd (syncCommands c n guildId w)) =
                 requests w @ [Rest_get (route_of c guildId),
                   Rest_put (route_of c guildId) (fst (merge_commands c n guildId w))])
    \<and> (\<forall>existing e'. rest_get n (route_of c guildId) = Inr existing
          \<and> rest_put n (route_of c guildId) existing = Inl e' \<longrightarrow>
          fst (syncCommands_part_000 c n guildId w) = 0
          \<and> requests (snd (syncCommands_part_000 c n guildId w)) =
              requests w @ [Rest_get (route_of c guildId),
                Rest_put (route_of c guildId) existing])"
proof -
  let ?rt = "route_of c guildId"
  note facts = syncCommands_facts [of c n guildId w]
  have other: "\<forall>existing e'. rest_get n ?rt = Inr existing
          \<and> rest_put n ?rt existing = Inl e' \<longrightarrow>
          fst (syncCommands_part_000 c n guildId w) = 0
          \<and> requests (snd (syncCommands_part_000 c n guildId w)) =
              requests w @ [Rest_get ?rt, Rest_put ?rt existing]"
    by (auto simp: syncCommands_part_000_def Let_def)
  show ?thesis
  proof (cases "includes_str (message e) ''Entry Point''")
    case False
    with facts assms have "fst (syncCommands c n guildId w) = 0
             \<and> requests (snd (syncCommands c n guildId w)) =
                 requests w @ [Rest_get ?rt, Rest_put ?rt (fst (merge_commands c n guildId w))]"
      by simp
    with False have "if includes_str (message e) ''Entry Point''
          then fst (syncCommands c n guildId w) =
                 length (filter (\<lambda>d. \<not> isl (rest_post n ?rt d)) newCommands)
             \<and> requests (snd (syncCommands c n guildId w)) =
                 requests w @ [Rest_get ?rt, Rest_put ?rt (fst (merge_commands c n guildId w))]
                 @ map (Rest_post ?rt) newCommands
             \<and> (\<forall>d\<in>set newCommands. \<forall>cmdError.
                   rest_post n ?rt d = Inl cmdError
                   \<and> includes_str (message cmdError) ''already exists'' \<longrightarrow>
                   (Info, Already_exists (api_name d))
                     \<in> set (logged (snd (syncCommands c n guildId w))))
          else fst (syncCommands c n guildId w) = 0
             \<and> requests (snd (syncCommands c n guildId w)) =
                 requests w @ [Rest_get ?rt, Rest_put ?rt (fst (merge_commands c n guildId w))]"
      by simp
    then show ?thesis using other by (rule conjI)
  next
    case True
    obtain w1 where t: "sync_try c n guildId w = (Inl e, w1)"
      using sync_try_facts [of c n guildId w] assms
      by (cases "sync_try c n guildId w") auto
    let ?w = "say Info Attempting_individual (say Err (Failed_to_sync (message e)) w1)"
    have s: "syncCommands c n guildId w = create_each n ?rt newCommands 0 ?w"
      using t True by (simp add: syncCommands_def createCommandsIndividually_def Let_def)
    have logged: "\<forall>d\<in>set newCommands. \<forall>cmdError.
                   rest_post n ?rt d = Inl cmdError
                   \<and> includes_str (message cmdError) ''already exists'' \<longrightarrow>
                   (Info, Already_exists (api_name d))
                     \<in> set (logged (snd (syncCommands c n guildId w)))"
      using create_each_already_exists [of _ newCommands n ?rt _ 0 ?w] s by auto
    from True facts assms have "fst (syncCommands c n guildId w) =
                 length (filter (\<lambda>d. \<not> isl (rest_post n ?rt d)) newCommands)
             \<and> requests (snd (syncCommands c n guildId w)) =
                 requests w @ [Rest_get ?rt, Rest_put ?rt (fst (merge_commands c n guildId w))]
                 @ map (Rest_post ?rt) newCommands"
      by simp
    with True logged have "if includes_str (message e) ''Entry Point''
          then fst (syncCommands c n guildId w) =
                 length (filter (\<lambda>d. \<not> isl (rest_post n ?rt d)) newCommands)
             \<and> requests (snd (syncCommands c n guildId w)) =
                 requests w @ [Rest_get ?rt, Rest_put ?rt (fst (merge_commands c n guildId w))]
                 @ map (Rest_post ?rt) newCommands
             \<and> (\<forall>d\<in>set newCommands. \<forall>cmdError.
                   rest_post n ?rt d = Inl cmdError
                   \<and> includes_str (message cmdError) ''already exists'' \<longrightarrow>
                   (Info, Already_exists (api_name d))
                     \<in> set (logged (snd (syncCommands c n guildId w))))
          else fst (syncCommands c n guildId w) = 0
             \<and> requests (snd (syncCommands c n guildId w)) =
                 requests w @ [Rest_get ?rt, Rest_put ?rt (fst (merge_commands c n guildId w))]"
      by simp
    then show ?thesis using other by (rule conjI)
  qed
qed

theorem syncCommands_bulk_failure_witness:
  "rest_put net_entry_point (route_of example_client None)
       (fst (merge_commands example_client net_entry_point None empty_world))
     = Inl (Error ''Entry Point command cannot be removed'')
   \<and> includes_str ''Entry Point command cannot be removed'' ''Entry Point''
   \<and> fst (syncCommands example_client net_entry_point None empty_world) = 1
   \<and> requests (snd (syncCommands example_client net_entry_point None empty_world)) =
        [Rest_get (Application_commands ''1234''),
         Rest_put (Application_commands ''1234'')
           (fst (merge_commands example_client net_entry_point None empty_world)),
         Rest_post (Application_commands ''1234'') (slash_command ''ping'' ''Check bot latency''),
         Rest_post (Application_commands ''1234'')
           (slash_command ''info'' ''Get bot information'')]
   \<and> (Info, Already_exists ''ping'')
        \<in> set (logged (snd (syncCommands example_client net_entry_point None empty_world)))
   \<and> fst (syncCommands_part_000 example_client net_entry_point None empty_world) = 0
   \<and> requests (snd (syncCommands_part_000 example_client net_entry_point None empty_world)) =
        [Rest_get (Application_commands ''1234''),
         Rest_put (Application_commands ''1234'') [launch_command, old_ping]]"
proof -
  let ?rt = "route_of example_client None"
  let ?e = "Error ''Entry Point command cannot be removed''"
  let ?ping = "slash_command ''ping'' ''Check bot latency''"
  have h: "rest_put net_entry_point ?rt
       (fst (merge_commands example_client net_entry_point None empty_world)) = Inl ?e"
    by (simp add: net_entry_point_def)
  have rt: "?rt = Application_commands ''1234''"
    by (simp add: route_of_def example_client_def)
  have marker: "includes_str (message ?e) ''Entry Point''" by simp
  have ping: "rest_post net_entry_point ?rt ?ping = Inl (Error ''Command already exists'')"
    by (simp add: net_entry_point_def slash_command_def)
  have exists: "includes_str (message (Error ''Command already exists'')) ''already exists''"
    by simp
  have count: "length (filter (\<lambda>d. \<not> isl (rest_post net_entry_point ?rt d)) newCommands) = 1"
    by (simp add: net_entry_point_def newCommands_def slash_command_def)
  have get: "rest_get net_entry_point ?rt = Inr [launch_command, old_ping]"
    by (simp add: net_entry_point_def example_net_def)
  have put: "rest_put net_entry_point ?rt [launch_command, old_ping] = Inl ?e"
    by (simp add: net_entry_point_def)
  note bulk = syncCommands_bulk_failure [OF h, unfolded if_P [OF marker]]
  have res: "fst (syncCommands example_client net_entry_point None empty_world) =
            length (filter (\<lambda>d. \<not> isl (rest_post net_entry_point ?rt d)) newCommands)"
    using bulk by blast
  have req: "requests (snd (syncCommands example_client net_entry_point None empty_world)) =
            requests empty_world @ [Rest_get ?rt, Rest_put ?rt
              (fst (merge_commands example_client net_entry_point None empty_world))]
            @ map (Rest_post ?rt) newCommands"
    using bulk by blast
  have logged: "\<forall>d\<in>set newCommands. \<forall>cmdError.
            rest_post net_entry_point ?rt d = Inl cmdError
            \<and> includes_str (message cmdError) ''already exists'' \<longrightarrow>
            (Info, Already_exists (api_name d))
              \<in> set (logged (snd (syncCommands example_client net_entry_point None
                    empty_world)))"
    using bulk by blast
  have other: "\<forall>existing e'. rest_get net_entry_point ?rt = Inr existing
          \<and> rest_put net_entry_point ?rt existing = Inl e' \<longrightarrow>
          fst (syncCommands_part_000 example_client net_entry_point None empty_world) = 0
          \<and> requests (snd (syncCommands_part_000 example_client net_entry_point None
                empty_world)) =
              requests empty_world @ [Rest_get ?rt, Rest_put ?rt existing]"
    using bulk by blast
  have "?ping \<in> set newCommands" by (simp add: newCommands_def)
  with logged ping exists have l: "(Info, Already_exists (api_name ?ping))
        \<in> set (logged (snd (syncCommands example_client net_entry_point None empty_world)))"
    by blast
  from other get put have o: "fst (syncCommands_part_000 example_client net_entry_point None
        empty_world) = 0
      \<and> requests (snd (syncCommands_part_000 example_client net_entry_point None
            empty_world)) =
          requests empty_world @ [Rest_get ?rt, Rest_put ?rt [launch_command, old_ping]]"
    by blast
  show ?thesis
    using h marker res count req l o
    by (simp add: rt empty_world_def newCommands_def slash_command_def)
qed

text \<open>
  Where the claim fails as stated: \<^verbatim>\<open>syncCommands\<close> of
  \<^verbatim>\<open>src/unnamed/part_000\<close>, with a bulk overwrite that throws an
  \<^verbatim>\<open>Entry Point\<close> error, returns 0 and creates nothing, though here the create
  of \<^verbatim>\<open>info\<close> would succeed.
\<close>

theorem part_000_no_fallback:
  "includes_str ''Entry Point command cannot be removed'' ''Entry Point''
   \<and> rest_put net_entry_point (Application_commands ''1234'') [launch_command, old_ping]
       = Inl (Error ''Entry Point command cannot be removed'')
   \<and> rest_post net_entry_point (Application_commands ''1234'')
         (slash_command ''info'' ''Get bot information'')
       = Inr (slash_command ''info'' ''Get bot information'')
   \<and> syncCommands_part_000 example_client net_entry_point None empty_world =
       (0, \<lparr> logged = [(Info, Found_existing 2),
                        (Err, Error_syncing ''Entry Point command cannot be removed'')],
              requests = [Rest_get (Application_commands ''1234''),
                          Rest_put (Application_commands ''1234'')
                            [launch_command, old_ping]] \<rparr>)"
  by (simp add: syncCommands_part_000_def route_of_def example_client_def net_entry_point_def
      example_net_def empty_world_def say_def send_def slash_command_def Let_def)

end
